theory Spec2Isabelle
  imports Complex_Main "HOL-Library.Word" "HOL-Library.Sublist" "HOL-Library.AList"
begin

section \<open>JavaScript values\<close>

text \<open>
  A JavaScript number is a double: a finite value is a rational, and there are three
  values that are not. Only the test \<open>count === 1\<close> and the conversion \<open>String(count)\<close>
  are used by the code below, so the rounding of arithmetic plays no role.
\<close>

datatype number = Num rat | NaN | PosInfinity | NegInfinity

text \<open>
  The values that \<open>JSON.parse\<close> and \<open>response.json()\<close> produce, and \<open>undefined\<close>. An object
  is the list of its own properties in enumeration order; an array is the object of its
  indices. A string is its list of code units. The members that every value inherits
  from the built-in prototypes (\<open>toString\<close>, \<open>constructor\<close>, \<dots>) are functions, not data,
  and are not part of the model: reading one yields \<open>JUndefined\<close> here.
\<close>

datatype jsval =
    JUndefined
  | JNull
  | JBool bool
  | JNum number
  | JStr string
  | JObj "(string \<times> jsval) list"

datatype js_error = TypeError | SyntaxError | ENOENT

text \<open>\<open>!value\<close> is the negation of \<open>truthy value\<close>.\<close>

fun truthy :: "jsval \<Rightarrow> bool" where
  "truthy JUndefined = False"
| "truthy JNull = False"
| "truthy (JBool b) = b"
| "truthy (JNum n) = (n \<noteq> Num 0 \<and> n \<noteq> NaN)"
| "truthy (JStr s) = (s \<noteq> [])"
| "truthy (JObj kvs) = True"

text \<open>\<open>obj[k]\<close> for an object given by its properties: \<open>undefined\<close> when \<open>k\<close> is not one.\<close>

definition own :: "(string \<times> jsval) list \<Rightarrow> string \<Rightarrow> jsval" where
  "own kvs k = (case map_of kvs k of None \<Rightarrow> JUndefined | Some v \<Rightarrow> v)"

text \<open>A property name that is an array index: decimal digits without a leading zero.\<close>

definition array_index :: "string \<Rightarrow> nat option" where
  "array_index k =
     (if k = [] \<or> \<not> list_all (\<lambda>c. c \<in> set ''0123456789'') k \<or> (hd k = CHR ''0'' \<and> k \<noteq> ''0'')
      then None
      else Some (foldl (\<lambda>n c. 10 * n + (of_char c - 48)) 0 k))"

text \<open>
  \<open>value[k]\<close>: a \<open>TypeError\<close> on \<open>undefined\<close> and \<open>null\<close>; an own property of an object; a
  character or the length of a string; \<open>undefined\<close> otherwise.
\<close>

fun js_get :: "jsval \<Rightarrow> string \<Rightarrow> js_error + jsval" where
  "js_get JUndefined k = Inl TypeError"
| "js_get JNull k = Inl TypeError"
| "js_get (JObj kvs) k = Inr (own kvs k)"
| "js_get (JStr s) k =
     (if k = ''length'' then Inr (JNum (Num (of_nat (length s))))
      else case array_index k of
             Some i \<Rightarrow> Inr (if i < length s then JStr [s ! i] else JUndefined)
           | None \<Rightarrow> Inr JUndefined)"
| "js_get (JBool b) k = Inr JUndefined"
| "js_get (JNum n) k = Inr JUndefined"

text \<open>\<open>key.split('.')\<close>: never empty, the empty string splits into one empty part.\<close>

fun split_dot :: "string \<Rightarrow> string list" where
  "split_dot [] = [[]]"
| "split_dot (c # cs) =
     (if c = CHR ''.'' then [] # split_dot cs
      else (case split_dot cs of p # ps \<Rightarrow> (c # p) # ps | [] \<Rightarrow> [[c]]))"

text \<open>
  A \<open>Set\<close> of strings keeps its elements in insertion order: \<open>new Set(xs)\<close> adds the
  elements of \<open>xs\<close> one by one, skipping those it holds already.
\<close>

definition Set_add :: "string list \<Rightarrow> string \<Rightarrow> string list" where
  "Set_add s x = (if x \<in> set s then s else s @ [x])"

definition new_Set :: "string list \<Rightarrow> string list" where
  "new_Set xs = foldl Set_add [] xs"

text \<open>The object spread \<open>{ ...prev, ...new }\<close>: the properties of \<open>new\<close> are assigned onto a copy of \<open>prev\<close>.\<close>

definition spread :: "(string \<times> jsval) list \<Rightarrow> (string \<times> jsval) list \<Rightarrow> (string \<times> jsval) list" where
  "spread prev new = foldl (\<lambda>obj (k, v). AList.update k v obj) prev new"

text \<open>
  Following a path of property names by \<open>value[k]\<close>, and the string it leads to, if any:
  what it means that a key resolves to a string leaf.
\<close>

fun lookup_path :: "jsval \<Rightarrow> string list \<Rightarrow> jsval" where
  "lookup_path v [] = v"
| "lookup_path v (k # ks) =
     (case js_get v k of Inl e \<Rightarrow> JUndefined | Inr v' \<Rightarrow> lookup_path v' ks)"

definition resolves :: "jsval \<Rightarrow> string list \<Rightarrow> string option" where
  "resolves tree path = (case lookup_path tree path of JStr s \<Rightarrow> Some s | _ \<Rightarrow> None)"

section \<open>Translation helpers (\<open>utils/translationHelpers\<close>)\<close>

text \<open>
  \<open>String.prototype.replace\<close> expands \<open>$\<close> patterns of the replacement string
  (ECMAScript \<open>GetSubstitution\<close>): \<open>$$\<close> is a dollar sign, \<open>$&\<close> the matched text,
  \<open>$`\<close> the text before the match and \<open>$'\<close> the text after it. The pattern
  \<open>/{{count}}/g\<close> has no capture group, so \<open>$1\<close> \<dots> \<open>$99\<close> and \<open>$<\<close> stay as they are.
\<close>

fun GetSubstitution :: "string \<Rightarrow> string \<Rightarrow> string \<Rightarrow> string \<Rightarrow> string" where
  "GetSubstitution matched pre post [] = []"
| "GetSubstitution matched pre post [c] = [c]"
| "GetSubstitution matched pre post (c # d # rest) =
     (if c = CHR ''$'' \<and> d = CHR ''$'' then CHR ''$'' # GetSubstitution matched pre post rest
      else if c = CHR ''$'' \<and> d = CHR ''&'' then matched @ GetSubstitution matched pre post rest
      else if c = CHR ''$'' \<and> d = CHR 0x60 then pre @ GetSubstitution matched pre post rest
      else if c = CHR ''$'' \<and> d = CHR 0x27 then post @ GetSubstitution matched pre post rest
      else c # GetSubstitution matched pre post (d # rest))"

text \<open>
  \<open>s.replace(/pat/g, repl)\<close> for a pattern \<open>pat\<close> of literal characters: the string is
  scanned from the left; where \<open>pat\<close> starts, the expanded replacement is emitted and
  the scan goes on behind the match, elsewhere one character is copied. \<open>pre\<close> is the
  part of the subject already scanned (the \<open>$`\<close> of a later match).
\<close>

function replace_global :: "string \<Rightarrow> string \<Rightarrow> string \<Rightarrow> string \<Rightarrow> string" where
  "replace_global pat repl pre s =
     (if s = [] then []
      else if pat \<noteq> [] \<and> prefix pat s
      then GetSubstitution pat pre (drop (length pat) s) repl
           @ replace_global pat repl (pre @ pat) (drop (length pat) s)
      else hd s # replace_global pat repl (pre @ [hd s]) (tl s))"
  by pat_completeness auto
termination
  by (relation "measure (\<lambda>(pat, repl, pre, s). length s)") (auto simp: prefix_def)

text \<open>
  \<^verbatim>\<open>
  function formatPlural(count, one, other) {
      if (count === 1) { return one; }
      return other.replace(/{{count}}/g, String(count));
  }
  \<close>
  \<open>String\<close> is the number-to-string conversion of the language, a parameter here.
\<close>

definition formatPlural :: "(number \<Rightarrow> string) \<Rightarrow> number \<Rightarrow> string \<Rightarrow> string \<Rightarrow> string" where
  "formatPlural String count one other =
     (if count = Num 1 then one
      else replace_global ''{{count}}'' (String count) [] other)"

text \<open>
  The decimal rendering of an integer, which is what \<open>String\<close> yields for an
  integer-valued number below \<open>10\<^sup>2\<^sup>1\<close> in magnitude; used to run the examples.
\<close>

fun decimal :: "nat \<Rightarrow> string" where
  "decimal n =
     (if n < 10 then [''0123456789'' ! n]
      else decimal (n div 10) @ [''0123456789'' ! (n mod 10)])"

definition String_int :: "number \<Rightarrow> string" where
  "String_int x =
     (case x of
        Num q \<Rightarrow> (if q < 0 then CHR ''-'' # decimal (nat (- \<lfloor>q\<rfloor>)) else decimal (nat \<lfloor>q\<rfloor>))
      | NaN \<Rightarrow> ''NaN''
      | PosInfinity \<Rightarrow> ''Infinity''
      | NegInfinity \<Rightarrow> ''-Infinity'')"

section \<open>The provider (\<open>contexts/TranslationContext.tsx\<close>)\<close>

text \<open>The props of \<open>TranslationProvider\<close>; the two paths default to \<open>/locales\<close> and \<open>/locales-hashed\<close>.\<close>

record config =
  defaultLanguage :: string
  defaultTranslations :: "(string \<times> jsval) list"
  translationManifest :: "(string \<times> string) list"
  isSupportedLanguage :: "string \<Rightarrow> bool"
  localesPath :: string
  localesHashedPath :: string

text \<open>
  The four \<open>useState\<close> cells. The cell \<open>translations\<close> of the source is \<open>translations_state\<close>
  here, \<open>loadedNamespaces\<close> is a \<open>Set\<close>.
\<close>

record provider_state =
  language :: string
  translations_state :: "(string \<times> jsval) list"
  loadedNamespaces :: "string list"
  isLoading :: bool

text \<open>
  A call of the \<open>async\<close> function \<open>loadTranslationsForNamespaces\<close> that is suspended at
  \<open>await fetch(url)\<close>: the language its closure captured, the namespace whose response it
  awaits, the namespaces the loop has still to visit, and its local \<open>newTranslations\<close>.
\<close>

record batch =
  b_language :: string
  b_namespace :: string
  b_rest :: "string list"
  b_newTranslations :: "(string \<times> jsval) list"

text \<open>
  The component and its surroundings. \<open>state\<close> holds the cells with every update made so
  far applied. The callbacks \<open>t\<close>, \<open>loadNamespaces\<close> and \<open>loadTranslationsForNamespaces\<close> are
  closures of a render and read the cells as that render saw them: \<open>rendered\<close>. An update
  (\<open>setLoadedNamespaces\<close>, \<open>setTranslations\<close>, \<dots>) changes \<open>state\<close>, and \<open>rendered\<close> follows
  at the next render. \<open>fetched\<close> lists the URLs passed to \<open>fetch\<close>, \<open>console\<close> the messages of
  \<open>console.error\<close>, \<open>localStorage\<close> is the item \<open>language\<close>.
\<close>

record world =
  state :: provider_state
  rendered :: provider_state
  inflight :: "batch list"
  fetched :: "string list"
  console :: "string list"
  localStorage :: "string option"

text \<open>
  What a \<open>fetch\<close> comes to: the promise rejects, or there is a response with its \<open>ok\<close>
  flag and a body that \<open>response.json()\<close> parses or rejects.
\<close>

datatype body = Json jsval | NotJson

datatype fetch_outcome = NetworkError | Response bool body


text \<open>
  \<^verbatim>\<open>
  const getInitialLanguage = () => {
    if (typeof window !== 'undefined') {
      const savedLanguage = localStorage.getItem('language');
      if (savedLanguage && isSupportedLanguage(savedLanguage)) { return savedLanguage; }
    }
    return defaultLanguage;
  };
  \<close>
\<close>

definition getInitialLanguage :: "config \<Rightarrow> bool \<Rightarrow> string option \<Rightarrow> string" where
  "getInitialLanguage cfg has_window savedLanguage =
     (if has_window then
        (case savedLanguage of
           Some l \<Rightarrow> if l \<noteq> [] \<and> isSupportedLanguage cfg l then l else defaultLanguage cfg
         | None \<Rightarrow> defaultLanguage cfg)
      else defaultLanguage cfg)"

text \<open>
  The first render: \<open>useState(getInitialLanguage)\<close>, \<open>useState(defaultTranslations)\<close>,
  \<open>useState(new Set(Object.keys(defaultTranslations)))\<close>, \<open>useState(false)\<close>.
\<close>

definition mount :: "config \<Rightarrow> bool \<Rightarrow> string option \<Rightarrow> world" where
  "mount cfg has_window savedLanguage =
     (let s = \<lparr>language = getInitialLanguage cfg has_window savedLanguage,
                translations_state = defaultTranslations cfg,
                loadedNamespaces = new_Set (map fst (defaultTranslations cfg)),
                isLoading = False\<rparr>
      in \<lparr>state = s, rendered = s, inflight = [], fetched = [], console = [],
          localStorage = savedLanguage\<rparr>)"

text \<open>
  The URL of a namespace, lines 113 to 121:
  \<^verbatim>\<open>
  let url = `${localesPath}/${language}/${namespace}.json`;
  const manifestKey = `${language}/${namespace}`;
  const hashedFilename = translationManifest[manifestKey];
  if (hashedFilename) { url = `${localesHashedPath}/${hashedFilename}`; }
  \<close>
\<close>

definition request_url :: "config \<Rightarrow> string \<Rightarrow> string \<Rightarrow> string" where
  "request_url cfg lang namespace =
     (let url = localesPath cfg @ ''/'' @ lang @ ''/'' @ namespace @ ''.json'';
          manifestKey = lang @ ''/'' @ namespace
      in case map_of (translationManifest cfg) manifestKey of
           Some hashedFilename \<Rightarrow>
             if hashedFilename \<noteq> [] then localesHashedPath cfg @ ''/'' @ hashedFilename else url
         | None \<Rightarrow> url)"

text \<open>
  The end of the \<open>async\<close> function: \<open>setTranslations((prev) => ({ ...prev, ...newTranslations }))\<close>
  and, in \<open>finally\<close>, \<open>setIsLoading(false)\<close>.
\<close>

definition finish_batch :: "(string \<times> jsval) list \<Rightarrow> world \<Rightarrow> world" where
  "finish_batch newTranslations w =
     w\<lparr>state := (state w)\<lparr>translations_state := spread (translations_state (state w)) newTranslations,
                            isLoading := False\<rparr>\<rparr>"

text \<open>
  The call of \<open>loadTranslationsForNamespaces(namespacesToLoad)\<close>, up to its first \<open>await\<close>:
  nothing for the default language; otherwise \<open>setIsLoading(true)\<close> and the \<open>fetch\<close> of the
  first namespace, after which the call is suspended. With no namespace the loop is
  skipped and the function runs to its end at once.
\<close>

definition loadTranslationsForNamespaces :: "config \<Rightarrow> string list \<Rightarrow> world \<Rightarrow> world" where
  "loadTranslationsForNamespaces cfg namespacesToLoad w =
     (let lang = language (rendered w) in
      if lang = defaultLanguage cfg then w
      else
        let w1 = w\<lparr>state := (state w)\<lparr>isLoading := True\<rparr>\<rparr> in
        case namespacesToLoad of
          [] \<Rightarrow> finish_batch [] w1
        | namespace # rest \<Rightarrow>
            w1\<lparr>fetched := fetched w1 @ [request_url cfg lang namespace],
                inflight := inflight w1 @
                  [\<lparr>b_language = lang, b_namespace = namespace, b_rest = rest,
                     b_newTranslations = []\<rparr>]\<rparr>)"

text \<open>
  The body of the loop behind \<open>await fetch(url)\<close>, lines 123 to 145, on the local
  \<open>newTranslations\<close> and the console:
  \<^verbatim>\<open>
  try {
    const response = await fetch(url);
    if (response.ok) {
      const data = await response.json();
      newTranslations[namespace] = data;
    } else {
      newTranslations[namespace] = defaultTranslations[namespace];
    }
  } catch (fetchError) {
    console.error(`Failed to load translation for ${namespace}:`, fetchError);
    newTranslations[namespace] = defaultTranslations[namespace];
  }
  \<close>
\<close>

text \<open>The two messages of \<open>console.error\<close>; the error object that follows the first is left out.\<close>

definition load_failure :: "string \<Rightarrow> string" where
  "load_failure namespace = ''Failed to load translation for '' @ namespace @ '':''"

definition key_not_found :: "string \<Rightarrow> string \<Rightarrow> string" where
  "key_not_found namespace key = ''Translation key not found: '' @ namespace @ '':'' @ key"

definition receive :: "config \<Rightarrow> string \<Rightarrow> fetch_outcome \<Rightarrow>
    (string \<times> jsval) list \<times> string list \<Rightarrow> (string \<times> jsval) list \<times> string list" where
  "receive cfg namespace outcome acc =
     (case acc of (newTranslations, errs) \<Rightarrow>
        (case outcome of
           Response ok content \<Rightarrow>
             if ok then
               (case content of
                  Json data \<Rightarrow> (AList.update namespace data newTranslations, errs)
                | NotJson \<Rightarrow>
                    (AList.update namespace (own (defaultTranslations cfg) namespace) newTranslations,
                     errs @ [load_failure namespace]))
             else (AList.update namespace (own (defaultTranslations cfg) namespace) newTranslations, errs)
         | NetworkError \<Rightarrow>
             (AList.update namespace (own (defaultTranslations cfg) namespace) newTranslations,
              errs @ [load_failure namespace])))"

text \<open>
  The \<open>fetch\<close> awaited by the suspended call number \<open>i\<close> settles: the loop body runs for
  its namespace, then the loop either fetches the next namespace and the call is
  suspended again, or ends and the call finishes.
\<close>

definition settle :: "config \<Rightarrow> nat \<Rightarrow> fetch_outcome \<Rightarrow> world \<Rightarrow> world" where
  "settle cfg i outcome w =
     (if i < length (inflight w) then
        let b = inflight w ! i;
            (newTranslations, errs) =
               receive cfg (b_namespace b) outcome (b_newTranslations b, console w)
        in case b_rest b of
             [] \<Rightarrow>
               finish_batch newTranslations
                 (w\<lparr>inflight := take i (inflight w) @ drop (Suc i) (inflight w), console := errs\<rparr>)
           | namespace # rest \<Rightarrow>
               w\<lparr>inflight := (inflight w)
                    [i := b\<lparr>b_namespace := namespace, b_rest := rest,
                            b_newTranslations := newTranslations\<rparr>],
                  fetched := fetched w @ [request_url cfg (b_language b) namespace],
                  console := errs\<rparr>
      else w)"

text \<open>
  \<^verbatim>\<open>
  const loadNamespaces = useCallback((namespaces) => {
    const newNamespaces = namespaces.filter((ns) => !loadedNamespaces.has(ns));
    if (newNamespaces.length > 0) {
      setLoadedNamespaces((prev) => new Set([...prev, ...newNamespaces]));
      loadTranslationsForNamespaces(newNamespaces);
    }
  }, [loadedNamespaces, loadTranslationsForNamespaces]);
  \<close>
  \<open>loadedNamespaces\<close> is the set of the render, \<open>prev\<close> the current one.
\<close>

definition loadNamespaces :: "config \<Rightarrow> string list \<Rightarrow> world \<Rightarrow> world" where
  "loadNamespaces cfg namespaces w =
     (let newNamespaces = filter (\<lambda>ns. ns \<notin> set (loadedNamespaces (rendered w))) namespaces in
      if length newNamespaces > 0 then
        loadTranslationsForNamespaces cfg newNamespaces
          (w\<lparr>state := (state w)\<lparr>loadedNamespaces :=
                new_Set (loadedNamespaces (state w) @ newNamespaces)\<rparr>\<rparr>)
      else w)"

text \<open>
  The effect on the language, lines 180 to 190:
  \<^verbatim>\<open>
  useEffect(() => {
    if (language === defaultLanguage) { setTranslations(defaultTranslations); return; }
    const namespacesToLoad = Array.from(loadedNamespaces);
    loadTranslationsForNamespaces(namespacesToLoad);
  }, [language, defaultLanguage, loadTranslationsForNamespaces, defaultTranslations]);
  \<close>
  and the effect that saves the language, lines 94 to 98.
\<close>

definition language_effect :: "config \<Rightarrow> world \<Rightarrow> world" where
  "language_effect cfg w =
     (if language (rendered w) = defaultLanguage cfg
      then w\<lparr>state := (state w)\<lparr>translations_state := defaultTranslations cfg\<rparr>\<rparr>
      else loadTranslationsForNamespaces cfg (loadedNamespaces (rendered w)) w)"

definition storage_effect :: "world \<Rightarrow> world" where
  "storage_effect w = w\<lparr>localStorage := Some (language (rendered w))\<rparr>"

definition setLanguage :: "string \<Rightarrow> world \<Rightarrow> world" where
  "setLanguage lang w = w\<lparr>state := (state w)\<lparr>language := lang\<rparr>\<rparr>"

definition render :: "world \<Rightarrow> world" where
  "render w = w\<lparr>rendered := state w\<rparr>"

text \<open>
  The loop of \<open>t\<close> over the key path, with its early return (\<open>None\<close>) and the \<open>TypeError\<close>
  of \<open>value[k]\<close>:
  \<^verbatim>\<open>
  for (const k of keyPath) {
    if (value === undefined) return key;
    value = value[k];
  }
  \<close>
\<close>

fun walk :: "jsval \<Rightarrow> string list \<Rightarrow> js_error + jsval option" where
  "walk v [] = Inr (Some v)"
| "walk v (k # keyPath) =
     (if v = JUndefined then Inr None
      else case js_get v k of Inl e \<Rightarrow> Inl e | Inr v' \<Rightarrow> walk v' keyPath)"

text \<open>
  \<open>t(key, namespace = 'common')\<close>, lines 193 to 232: the value returned and the effects.
  \<^verbatim>\<open>
  try {
    if (!loadedNamespaces.has(namespace)) {
      setLoadedNamespaces((prev) => new Set([...prev, namespace]));
      if (language !== defaultLanguage) { loadTranslationsForNamespaces([namespace]); }
    }
    const keyPath = key.split('.');
    let value = translations[namespace];
    if (!value && defaultTranslations[namespace]) { value = defaultTranslations[namespace]; }
    for (const k of keyPath) { ... }
    return typeof value === 'string' ? value : key;
  } catch (_error) {
    console.error(`Translation key not found: ${namespace}:${key}`);
    return key;
  }
  \<close>
\<close>

text \<open>The tree that \<open>t\<close> walks, lines 213 to 218 of the source.\<close>

definition working_tree :: "config \<Rightarrow> provider_state \<Rightarrow> string \<Rightarrow> jsval" where
  "working_tree cfg r namespace =
     (let v = own (translations_state r) namespace in
      if \<not> truthy v \<and> truthy (own (defaultTranslations cfg) namespace)
      then own (defaultTranslations cfg) namespace else v)"

definition t :: "config \<Rightarrow> string \<Rightarrow> string option \<Rightarrow> world \<Rightarrow> string \<times> world" where
  "t cfg key namespace_arg w =
     (let namespace = (case namespace_arg of None \<Rightarrow> ''common'' | Some n \<Rightarrow> n);
          r = rendered w;
          w1 = (if namespace \<notin> set (loadedNamespaces r) then
                  let w' = w\<lparr>state := (state w)\<lparr>loadedNamespaces :=
                                new_Set (loadedNamespaces (state w) @ [namespace])\<rparr>\<rparr>
                  in if language r \<noteq> defaultLanguage cfg
                     then loadTranslationsForNamespaces cfg [namespace] w' else w'
                else w);
          keyPath = split_dot key;
          v = working_tree cfg r namespace
      in case walk v keyPath of
           Inl e \<Rightarrow>
             (key, w1\<lparr>console := console w1 @ [key_not_found namespace key]\<rparr>)
         | Inr None \<Rightarrow> (key, w1)
         | Inr (Some (JStr s)) \<Rightarrow> (s, w1)
         | Inr (Some _) \<Rightarrow> (key, w1))"

text \<open>
  What can happen to a mounted provider, one event at a time: a render; a call of \<open>t\<close> or
  of \<open>loadNamespaces\<close> by a component, with the callbacks of the last render; a call of
  \<open>setLanguage\<close>; one of the two effects; the settling of the \<open>fetch\<close> that a suspended
  call awaits. React runs the effects of a render after it, those of the components
  (\<open>useTranslation\<close> calls \<open>loadNamespaces\<close> in one) before those of the provider.
\<close>

datatype event =
    Render
  | CallT string "string option"
  | CallLoadNamespaces "string list"
  | SetLanguage string
  | StorageEffect
  | LanguageEffect
  | FetchSettled nat fetch_outcome

fun step :: "config \<Rightarrow> event \<Rightarrow> world \<Rightarrow> world" where
  "step cfg Render w = render w"
| "step cfg (CallT key ns) w = snd (t cfg key ns w)"
| "step cfg (CallLoadNamespaces nss) w = loadNamespaces cfg nss w"
| "step cfg (SetLanguage lang) w = setLanguage lang w"
| "step cfg StorageEffect w = storage_effect w"
| "step cfg LanguageEffect w = language_effect cfg w"
| "step cfg (FetchSettled i outcome) w = settle cfg i outcome w"

definition run :: "config \<Rightarrow> event list \<Rightarrow> world \<Rightarrow> world" where
  "run cfg es w = foldl (\<lambda>w e. step cfg e w) w es"

text \<open>
  A call of \<open>loadTranslationsForNamespaces\<close> run to its end with nothing else in between,
  the network answering each URL by \<open>net\<close>: the call, then the settling of its fetches
  one after the other.
\<close>

fun await_all :: "config \<Rightarrow> (string \<Rightarrow> fetch_outcome) \<Rightarrow> nat \<Rightarrow> nat \<Rightarrow> world \<Rightarrow> world" where
  "await_all cfg net i 0 w = w"
| "await_all cfg net i (Suc n) w =
     (if i < length (inflight w) then
        let b = inflight w ! i
        in await_all cfg net i n
             (settle cfg i (net (request_url cfg (b_language b) (b_namespace b))) w)
      else w)"

definition load_to_end :: "config \<Rightarrow> (string \<Rightarrow> fetch_outcome) \<Rightarrow> string list \<Rightarrow> world \<Rightarrow> world" where
  "load_to_end cfg net namespacesToLoad w =
     await_all cfg net (length (inflight w)) (length namespacesToLoad)
       (loadTranslationsForNamespaces cfg namespacesToLoad w)"

text \<open>
  A call of \<open>t\<close> or of \<open>loadNamespaces\<close>, or the language effect, starts a batch when it
  changes the outstanding batches or \<open>isLoading\<close>. In a sequence of events that is
  \<open>one_at_a_time\<close>, a batch is started only while no batch is outstanding.
\<close>

fun quiet :: "event \<Rightarrow> bool" where
  "quiet Render = True"
| "quiet (SetLanguage lang) = True"
| "quiet StorageEffect = True"
| "quiet (FetchSettled i outcome) = True"
| "quiet _ = False"

definition starts_batch :: "config \<Rightarrow> event \<Rightarrow> world \<Rightarrow> bool" where
  "starts_batch cfg e w \<longleftrightarrow>
     \<not> quiet e
     \<and> (inflight (step cfg e w) \<noteq> inflight w
        \<or> isLoading (state (step cfg e w)) \<noteq> isLoading (state w))"

fun one_at_a_time :: "config \<Rightarrow> event list \<Rightarrow> world \<Rightarrow> bool" where
  "one_at_a_time cfg [] w = True"
| "one_at_a_time cfg (e # es) w =
     ((inflight w = [] \<or> \<not> starts_batch cfg e w) \<and> one_at_a_time cfg es (step cfg e w))"

text \<open>
  The loop of a batch as a whole: the responses to the namespaces \<open>nss\<close>, in their order,
  on \<open>newTranslations\<close> and the console.
\<close>

definition responses :: "config \<Rightarrow> (string \<Rightarrow> fetch_outcome) \<Rightarrow> string \<Rightarrow> string list \<Rightarrow>
    (string \<times> jsval) list \<times> string list \<Rightarrow> (string \<times> jsval) list \<times> string list" where
  "responses cfg net lang nss acc =
     foldl (\<lambda>acc ns. receive cfg ns (net (request_url cfg lang ns)) acc) acc nss"

text \<open>The failures that are exceptions: a rejected \<open>fetch\<close> and a body that is not JSON.\<close>

definition thrown :: "fetch_outcome \<Rightarrow> bool" where
  "thrown outcome \<longleftrightarrow> outcome = NetworkError \<or> outcome = Response True NotJson"

text \<open>
  Three properties of a world that the events keep. \<open>coherent\<close>: a render never holds a
  namespace that the state has not. \<open>known A\<close>: the last render and the state hold \<open>A\<close>.
  \<open>single\<close>: at most one batch is outstanding, and \<open>isLoading\<close> says whether one is.
\<close>

definition coherent :: "world \<Rightarrow> bool" where
  "coherent w \<longleftrightarrow> set (loadedNamespaces (rendered w)) \<subseteq> set (loadedNamespaces (state w))"

definition known :: "string \<Rightarrow> world \<Rightarrow> bool" where
  "known A w \<longleftrightarrow> A \<in> set (loadedNamespaces (rendered w)) \<and> A \<in> set (loadedNamespaces (state w))"

definition single :: "world \<Rightarrow> bool" where
  "single w \<longleftrightarrow> (isLoading (state w) \<longleftrightarrow> inflight w \<noteq> []) \<and> length (inflight w) \<le> 1"

section \<open>The hash of a translation file (\<open>scripts/hashTranslations.js\<close>)\<close>

text \<open>
  \<open>crypto.createHash('md5')\<close> is the MD5 digest of RFC 1321, on the bytes of the file. A
  \<open>char\<close> is a byte. The message is padded to a multiple of 64 bytes with the byte \<open>0x80\<close>,
  zeros and its length in bits; each block of sixteen little-endian words goes through
  the 64 steps of the compression function.
\<close>

unbundle bit_operations_syntax

definition md5_K :: "32 word list" where
  "md5_K =
    [0xd76aa478, 0xe8c7b756, 0x242070db, 0xc1bdceee, 0xf57c0faf, 0x4787c62a, 0xa8304613, 0xfd469501,
     0x698098d8, 0x8b44f7af, 0xffff5bb1, 0x895cd7be, 0x6b901122, 0xfd987193, 0xa679438e, 0x49b40821,
     0xf61e2562, 0xc040b340, 0x265e5a51, 0xe9b6c7aa, 0xd62f105d, 0x02441453, 0xd8a1e681, 0xe7d3fbc8,
     0x21e1cde6, 0xc33707d6, 0xf4d50d87, 0x455a14ed, 0xa9e3e905, 0xfcefa3f8, 0x676f02d9, 0x8d2a4c8a,
     0xfffa3942, 0x8771f681, 0x6d9d6122, 0xfde5380c, 0xa4beea44, 0x4bdecfa9, 0xf6bb4b60, 0xbebfbc70,
     0x289b7ec6, 0xeaa127fa, 0xd4ef3085, 0x04881d05, 0xd9d4d039, 0xe6db99e5, 0x1fa27cf8, 0xc4ac5665,
     0xf4292244, 0x432aff97, 0xab9423a7, 0xfc93a039, 0x655b59c3, 0x8f0ccc92, 0xffeff47d, 0x85845dd1,
     0x6fa87e4f, 0xfe2ce6e0, 0xa3014314, 0x4e0811a1, 0xf7537e82, 0xbd3af235, 0x2ad7d2bb, 0xeb86d391]"

definition md5_s :: "nat list" where
  "md5_s =
    [7, 12, 17, 22, 7, 12, 17, 22, 7, 12, 17, 22, 7, 12, 17, 22,
     5, 9, 14, 20, 5, 9, 14, 20, 5, 9, 14, 20, 5, 9, 14, 20,
     4, 11, 16, 23, 4, 11, 16, 23, 4, 11, 16, 23, 4, 11, 16, 23,
     6, 10, 15, 21, 6, 10, 15, 21, 6, 10, 15, 21, 6, 10, 15, 21]"

definition md5_pad :: "string \<Rightarrow> string" where
  "md5_pad msg =
     msg @ [char_of (0x80 :: nat)] @ replicate ((119 - length msg mod 64) mod 64) (char_of (0 :: nat))
     @ map (\<lambda>i. char_of (unat (drop_bit (8 * i) (of_nat (8 * length msg) :: 64 word) AND 0xff)))
         [0..<8]"

fun chunks :: "nat \<Rightarrow> 'a list \<Rightarrow> 'a list list" where
  "chunks n [] = []"
| "chunks n (x # xs) = take n (x # xs) # chunks n (drop (n - 1) xs)"

definition le32 :: "string \<Rightarrow> 32 word" where
  "le32 bs = foldr (\<lambda>c w. of_char c + 256 * w) bs 0"

definition md5_step :: "32 word list \<Rightarrow> nat \<Rightarrow> 32 word \<times> 32 word \<times> 32 word \<times> 32 word \<Rightarrow>
    32 word \<times> 32 word \<times> 32 word \<times> 32 word" where
  "md5_step M i st =
     (case st of (a, b, c, d) \<Rightarrow>
        let (f, g) =
              (if i < 16 then ((b AND c) OR (NOT b AND d), i)
               else if i < 32 then ((d AND b) OR (NOT d AND c), (5 * i + 1) mod 16)
               else if i < 48 then (b XOR c XOR d, (3 * i + 5) mod 16)
               else (c XOR (b OR NOT d), (7 * i) mod 16));
            f' = f + a + md5_K ! i + M ! g
        in (d, b + word_rotl (md5_s ! i) f', b, c))"

definition md5_block :: "32 word \<times> 32 word \<times> 32 word \<times> 32 word \<Rightarrow> string \<Rightarrow>
    32 word \<times> 32 word \<times> 32 word \<times> 32 word" where
  "md5_block st blk =
     (let M = map le32 (chunks 4 blk) in
      case st of (a0, b0, c0, d0) \<Rightarrow>
        (case fold (md5_step M) [0..<64] st of (a, b, c, d) \<Rightarrow> (a0 + a, b0 + b, c0 + c, d0 + d)))"

definition bytes32 :: "32 word \<Rightarrow> nat list" where
  "bytes32 w = map (\<lambda>i. unat (drop_bit (8 * i) w AND 0xff)) [0..<4]"

definition md5 :: "string \<Rightarrow> nat list" where
  "md5 msg =
     (case fold (\<lambda>blk st. md5_block st blk) (chunks 64 (md5_pad msg))
             (0x67452301, 0xefcdab89, 0x98badcfe, 0x10325476) of
        (a, b, c, d) \<Rightarrow> bytes32 a @ bytes32 b @ bytes32 c @ bytes32 d)"

text \<open>\<open>digest('hex')\<close>: two lower-case hexadecimal digits for each byte.\<close>

definition hex :: "nat list \<Rightarrow> string" where
  "hex bs = concat (map (\<lambda>b. [''0123456789abcdef'' ! (b div 16), ''0123456789abcdef'' ! (b mod 16)]) bs)"

text \<open>
  A file has its bytes and a modification time; a file system maps paths to files.
  \<^verbatim>\<open>
  function generateHash(filePath) {
    const fileContent = fs.readFileSync(filePath);
    return crypto.createHash('md5').update(fileContent).digest('hex').substring(0, 8);
  }
  \<close>
  \<open>readFileSync\<close> throws when there is no file at the path.
\<close>

record fs_file =
  content :: string
  mtime :: int




section \<open>The generators of types and of the default bundle (\<open>scripts/translationTypes.js\<close>)\<close>









section \<open>Reading a schema\<close>
















section \<open>Example data\<close>

text \<open>The provider of the scenarios: English bundled, Spanish fetched.\<close>

definition cfg0 :: config where
  "cfg0 = \<lparr>defaultLanguage = ''en'',
           defaultTranslations = [(''common'', JObj [(''nav'', JObj [(''back'', JStr ''Back'')])])],
           translationManifest = [(''es/common'', ''es/common.ab12cd34.json'')],
           isSupportedLanguage = (\<lambda>l. l \<in> set [''en'', ''es'']),
           localesPath = ''/locales'',
           localesHashedPath = ''/locales-hashed''\<rparr>"

text \<open>The same provider with a manifest whose entry for Spanish is the empty string.\<close>

definition cfg_empty_entry :: config where
  "cfg_empty_entry = cfg0\<lparr>translationManifest := [(''es/common'', [])]\<rparr>"

definition es_common :: jsval where
  "es_common = JObj [(''nav'', JObj [(''back'', JStr ''Volver'')])]"










section \<open>Properties of the translation helpers\<close>

declare replace_global.simps [simp del]
declare decimal.simps [simp del]

lemma GetSubstitution_plain:
  "CHR ''$'' \<notin> set repl \<Longrightarrow> GetSubstitution m pre post repl = repl"
  by (induction m pre post repl rule: GetSubstitution.induct) auto

lemma replace_global_Nil: "replace_global pat repl pre [] = []"
  by (simp add: replace_global.simps)

lemma replace_global_match:
  "pat \<noteq> [] \<Longrightarrow> prefix pat s \<Longrightarrow>
   replace_global pat repl pre s =
     GetSubstitution pat pre (drop (length pat) s) repl
     @ replace_global pat repl (pre @ pat) (drop (length pat) s)"
  by (subst replace_global.simps) (auto simp: prefix_def)

lemma replace_global_skip:
  "\<not> prefix pat (x # s) \<Longrightarrow>
   replace_global pat repl pre (x # s) = x # replace_global pat repl (pre @ [x]) s"
  by (subst replace_global.simps) simp

text \<open>Without a dollar sign in the replacement, the text before a match is never used.\<close>

lemma replace_global_pre:
  "CHR ''$'' \<notin> set repl \<Longrightarrow> replace_global pat repl pre s = replace_global pat repl pre' s"
proof (induction "length s" arbitrary: s pre pre' rule: less_induct)
  case less
  show ?case
  proof (cases s)
    case Nil
    then show ?thesis by (simp add: replace_global_Nil)
  next
    case (Cons x s')
    show ?thesis
    proof (cases "pat \<noteq> [] \<and> prefix pat s")
      case True
      then have "length (drop (length pat) s) < length s"
        using Cons by (cases pat) auto
      from less.hyps [OF this less.prems]
      have "replace_global pat repl (pre @ pat) (drop (length pat) s)
          = replace_global pat repl (pre' @ pat) (drop (length pat) s)" .
      then show ?thesis
        using True less.prems
        by (simp add: replace_global_match GetSubstitution_plain)
    next
      case False
      have "length s' < length s" using Cons by simp
      from less.hyps [OF this less.prems]
      have ih: "replace_global pat repl (pre @ [x]) s' = replace_global pat repl (pre' @ [x]) s'" .
      show ?thesis
      proof (cases "pat = []")
        case True
        then show ?thesis using ih Cons
          by (simp add: replace_global.simps [of "[]" repl _ "x # s'"])
      next
        case pne: False
        with False Cons have "\<not> prefix pat (x # s')" by simp
        then show ?thesis using ih Cons by (simp add: replace_global_skip)
      qed
    qed
  qed
qed

text \<open>
  A pattern that cannot overlap a shifted copy of itself: then the matches found by the
  left-to-right scan are all the occurrences, and replacing distributes over them.
\<close>

lemma replace_global_append:
  assumes nd: "CHR ''$'' \<notin> set repl" and pne: "pat \<noteq> []"
    and border: "\<And>a b. a \<noteq> [] \<Longrightarrow> length a < length pat \<Longrightarrow> \<not> prefix pat (a @ pat @ b)"
  shows "replace_global pat repl pre (a @ pat @ b)
       = replace_global pat repl pre a @ repl @ replace_global pat repl pre b"
proof (induction "length a" arbitrary: a pre rule: less_induct)
  case less
  show ?case
  proof (cases a)
    case Nil
    have "replace_global pat repl pre (pat @ b) = repl @ replace_global pat repl (pre @ pat) b"
      using replace_global_match [OF pne, of "pat @ b" repl pre]
      by (simp add: GetSubstitution_plain [OF nd])
    then show ?thesis
      using Nil replace_global_pre [OF nd, of pat "pre @ pat" b pre]
      by (simp add: replace_global_Nil)
  next
    case (Cons x a')
    then have ne: "a \<noteq> []" by simp
    show ?thesis
    proof (cases "prefix pat (a @ pat @ b)")
      case True
      have len: "length pat \<le> length a"
      proof (rule ccontr)
        assume "\<not> length pat \<le> length a"
        then have "length a < length pat" by simp
        from border [OF ne this, of b] True show False by simp
      qed
      have pa: "prefix pat a"
        by (rule prefix_length_prefix [OF True, of a]) (use len in simp_all)
      have d: "drop (length pat) (a @ pat @ b) = drop (length pat) a @ pat @ b"
        using len by simp
      have "length (drop (length pat) a) < length a" using len pne ne by simp
      from less.hyps [OF this]
      have ih: "replace_global pat repl (pre @ pat) (drop (length pat) a @ pat @ b)
          = replace_global pat repl (pre @ pat) (drop (length pat) a) @ repl
            @ replace_global pat repl (pre @ pat) b" .
      have l: "replace_global pat repl pre (a @ pat @ b)
          = repl @ replace_global pat repl (pre @ pat) (drop (length pat) a @ pat @ b)"
        using replace_global_match [OF pne True, of repl pre]
        by (simp only: d GetSubstitution_plain [OF nd])
      have r: "replace_global pat repl pre a
          = repl @ replace_global pat repl (pre @ pat) (drop (length pat) a)"
        using replace_global_match [OF pne pa, of repl pre]
        by (simp only: GetSubstitution_plain [OF nd])
      show ?thesis
        using replace_global_pre [OF nd, of pat "pre @ pat" b pre]
        by (simp only: l r ih append_assoc)
    next
      case False
      then have npa: "\<not> prefix pat a" by (auto simp: prefix_def)
      have "length a' < length a" using Cons by simp
      from less.hyps [OF this]
      have ih: "replace_global pat repl (pre @ [x]) (a' @ pat @ b)
          = replace_global pat repl (pre @ [x]) a' @ repl @ replace_global pat repl (pre @ [x]) b" .
      have l: "replace_global pat repl pre (a @ pat @ b)
          = x # replace_global pat repl (pre @ [x]) (a' @ pat @ b)"
        using False Cons replace_global_skip [of pat x "a' @ pat @ b" repl pre] by simp
      have r: "replace_global pat repl pre a = x # replace_global pat repl (pre @ [x]) a'"
        using npa Cons by (simp add: replace_global_skip)
      show ?thesis
        using replace_global_pre [OF nd, of pat "pre @ [x]" b pre]
        by (simp only: l r ih append_Cons)
    qed
  qed
qed

lemma replace_global_absent:
  "\<not> sublist pat s \<Longrightarrow> replace_global pat repl pre s = s"
proof (induction s arbitrary: pre)
  case Nil
  then show ?case by (simp add: replace_global_Nil)
next
  case (Cons x s)
  then have np: "\<not> prefix pat (x # s)" and ns: "\<not> sublist pat s"
    by (auto simp: sublist_Cons_right)
  from Cons.IH [OF ns] np show ?case
    by (simp add: replace_global_skip)
qed

text \<open>The placeholder \<open>{{count}}\<close> has no overlap with a shifted copy of itself.\<close>

lemma placeholder_no_overlap:
  assumes "a \<noteq> []" "length a < length ''{{count}}''"
  shows "\<not> prefix ''{{count}}'' (a @ ''{{count}}'' @ b)"
proof
  define P where "P = ''{{count}}''"
  assume "prefix ''{{count}}'' (a @ ''{{count}}'' @ b)"
  then obtain zs where eq: "a @ P @ b = P @ zs"
    unfolding P_def by (auto simp: prefix_def)
  have len: "length P = 9" by (simp add: P_def)
  have nth: "(P @ b) ! (i - length a) = P ! i" if "length a \<le> i" "i < 9" for i
  proof -
    have "(a @ P @ b) ! i = (P @ zs) ! i" by (simp only: eq)
    then show ?thesis using that len by (simp add: nth_append)
  qed
  have "0 < length a" "length a < 9" using assms by simp_all
  then consider "length a = 1" | "length a = 2" | "length a = 3" | "length a = 4"
    | "length a = 5" | "length a = 6" | "length a = 7" | "length a = 8" by arith
  then show False
  proof cases
    case 1
    with nth [of 2] show False by (simp add: P_def)
  qed (use nth [of "length a"] in \<open>simp_all add: P_def\<close>)
qed

text \<open>
  C10. \<open>formatPlural(count, one, other)\<close> is \<open>one\<close>, verbatim, when \<open>count === 1\<close>.
  For every other count (zero, negative, fractional, \<open>NaN\<close>) it is \<open>other\<close> with every
  occurrence of \<open>{{count}}\<close> replaced by \<open>String(count)\<close>: a text without the placeholder
  is returned as it is, and the result for \<open>a {{count}} b\<close> is the result for \<open>a\<close>, then
  \<open>String(count)\<close>, then the result for \<open>b\<close>. The rendering of a number holds no dollar
  sign, which is what the replacement of \<open>String.prototype.replace\<close> would expand.
\<close>

theorem formatPlural_spec:
  "formatPlural String (Num 1) one other = one
   \<and> (count \<noteq> Num 1 \<and> CHR ''$'' \<notin> set (String count) \<longrightarrow>
        (\<not> sublist ''{{count}}'' other \<longrightarrow> formatPlural String count one other = other)
      \<and> formatPlural String count one (a @ ''{{count}}'' @ b)
          = formatPlural String count one a @ String count @ formatPlural String count one b)"
proof -
  have "formatPlural String count one (a @ ''{{count}}'' @ b)
      = formatPlural String count one a @ String count @ formatPlural String count one b"
    if "count \<noteq> Num 1" "CHR ''$'' \<notin> set (String count)"
    using that replace_global_append [OF that(2) _ placeholder_no_overlap, of "[]" a b]
    by (simp add: formatPlural_def)
  then show ?thesis
    by (auto simp: formatPlural_def replace_global_absent)
qed

theorem formatPlural_spec_witness:
  "formatPlural String_int (Num 1) ''{{count}} item'' ''{{count}} items'' = ''{{count}} item''
   \<and> formatPlural String_int (Num 0) ''item'' ''no items'' = ''no items''
   \<and> formatPlural String_int (Num (-5)) ''item'' (''you owe '' @ ''{{count}}'' @ '' items'')
       = ''you owe -5 items''"
proof -
  have d: "decimal 5 = ''5''" by (simp add: decimal.simps)
  have s5: "String_int (Num (-5)) = ''-5''" by (simp add: String_int_def d)
  have s0: "String_int (Num 0) = ''0''" by (simp add: String_int_def decimal.simps)
  have n: "\<not> sublist ''{{count}}'' ''no items''"
    by (simp add: sublist_Cons_right)
  have n1: "\<not> sublist ''{{count}}'' ''you owe ''"
    by (simp add: sublist_Cons_right)
  have n2: "\<not> sublist ''{{count}}'' '' items''"
    by (simp add: sublist_Cons_right)
  have a: "formatPlural String_int (Num 1) ''{{count}} item'' ''{{count}} items'' = ''{{count}} item''"
    using formatPlural_spec [of String_int "''{{count}} item''" "''{{count}} items''" "Num 1" "[]" "[]"]
    by simp
  have b: "formatPlural String_int (Num 0) ''item'' ''no items'' = ''no items''"
    using formatPlural_spec [of String_int "''item''" "''no items''" "Num 0" "[]" "[]"] n s0
    by simp
  have c1: "formatPlural String_int (Num (-5)) ''item'' ''you owe '' = ''you owe ''"
    using formatPlural_spec [of String_int "''item''" "''you owe ''" "Num (-5)" "[]" "[]"] n1 s5
    by simp
  have c2: "formatPlural String_int (Num (-5)) ''item'' '' items'' = '' items''"
    using formatPlural_spec [of String_int "''item''" "'' items''" "Num (-5)" "[]" "[]"] n2 s5
    by simp
  have c: "formatPlural String_int (Num (-5)) ''item'' (''you owe '' @ ''{{count}}'' @ '' items'')
       = ''you owe -5 items''"
    using formatPlural_spec [of String_int "''item''" "''item''" "Num (-5)" "''you owe ''" "'' items''"]
      s5 c1 c2
    by simp
  from a b c show ?thesis by simp
qed

section \<open>Properties of the provider\<close>

subsection \<open>The namespaces requested so far\<close>

lemma set_foldl_Set_add: "set (foldl Set_add acc xs) = set acc \<union> set xs"
  by (induction xs arbitrary: acc) (auto simp: Set_add_def)

lemma set_new_Set: "set (new_Set xs) = set xs"
  by (simp add: new_Set_def set_foldl_Set_add)

lemma finish_batch_fields:
  "loadedNamespaces (state (finish_batch new w)) = loadedNamespaces (state w)"
  "language (state (finish_batch new w)) = language (state w)"
  "rendered (finish_batch new w) = rendered w"
  "inflight (finish_batch new w) = inflight w"
  "fetched (finish_batch new w) = fetched w"
  "console (finish_batch new w) = console w"
  "isLoading (state (finish_batch new w)) = False"
  "translations_state (state (finish_batch new w)) = spread (translations_state (state w)) new"
  by (simp_all add: finish_batch_def)

lemma load_fields:
  "loadedNamespaces (state (loadTranslationsForNamespaces cfg nss w)) = loadedNamespaces (state w)"
  "language (state (loadTranslationsForNamespaces cfg nss w)) = language (state w)"
  "rendered (loadTranslationsForNamespaces cfg nss w) = rendered w"
  "console (loadTranslationsForNamespaces cfg nss w) = console w"
  by (simp_all add: loadTranslationsForNamespaces_def Let_def finish_batch_fields split: list.splits)

lemma settle_fields:
  "loadedNamespaces (state (settle cfg i outcome w)) = loadedNamespaces (state w)"
  "language (state (settle cfg i outcome w)) = language (state w)"
  "rendered (settle cfg i outcome w) = rendered w"
  by (simp_all add: settle_def Let_def finish_batch_fields split: list.splits prod.splits)

lemma t_loaded:
  "set (loadedNamespaces (state w)) \<subseteq> set (loadedNamespaces (state (snd (t cfg key ns w))))"
  by (auto simp: t_def Let_def load_fields set_new_Set
      split: sum.splits option.splits jsval.splits)

lemma loadNamespaces_loaded:
  "set (loadedNamespaces (state w)) \<subseteq> set (loadedNamespaces (state (loadNamespaces cfg nss w)))"
  by (auto simp: loadNamespaces_def Let_def load_fields set_new_Set)

lemma step_loaded:
  "set (loadedNamespaces (state w)) \<subseteq> set (loadedNamespaces (state (step cfg e w)))"
proof (cases e)
  case (CallT key ns)
  then show ?thesis using t_loaded by simp
next
  case (CallLoadNamespaces nss)
  then show ?thesis using loadNamespaces_loaded by simp
qed (simp_all add: render_def setLanguage_def storage_effect_def language_effect_def
      load_fields settle_fields)

lemma run_loaded:
  "set (loadedNamespaces (state w)) \<subseteq> set (loadedNamespaces (state (run cfg es w)))"
proof (induction es arbitrary: w)
  case Nil
  then show ?case by (simp add: run_def)
next
  case (Cons e es)
  have "run cfg (e # es) w = run cfg es (step cfg e w)" by (simp add: run_def)
  with Cons [of "step cfg e w"] step_loaded [of w cfg e] show ?case by auto
qed

text \<open>
  C9. \<open>loadedNamespaces\<close> starts as the set of the namespaces of \<open>defaultTranslations\<close>, and
  no event removes a namespace from it: not a call of \<open>t\<close> or of \<open>loadNamespaces\<close>, not
  \<open>setLanguage\<close>, not an effect, not a settled \<open>fetch\<close>, and so no sequence of them.
\<close>

theorem loadedNamespaces_monotone:
  "loadedNamespaces (state (mount cfg has_window saved)) = new_Set (map fst (defaultTranslations cfg))
   \<and> set (loadedNamespaces (state (mount cfg has_window saved))) = fst ` set (defaultTranslations cfg)
   \<and> set (loadedNamespaces (state w)) \<subseteq> set (loadedNamespaces (state (step cfg e w)))
   \<and> set (loadedNamespaces (state w)) \<subseteq> set (loadedNamespaces (state (run cfg es w)))"
  using step_loaded [of w cfg e] run_loaded [of w cfg es]
  by (simp add: mount_def Let_def set_new_Set)

theorem loadedNamespaces_monotone_witness:
  "loadedNamespaces (state (mount cfg0 True None)) = [''common'']
   \<and> set (loadedNamespaces (state (mount cfg0 True None)))
       \<subseteq> set (loadedNamespaces (state (run cfg0
             [SetLanguage ''es'', Render, CallT ''title'' (Some ''dashboard''), LanguageEffect,
              SetLanguage ''en'', Render, LanguageEffect]
             (mount cfg0 True None))))"
proof -
  note m = loadedNamespaces_monotone [of cfg0 True None "mount cfg0 True None" Render
        "[SetLanguage ''es'', Render, CallT ''title'' (Some ''dashboard''), LanguageEffect,
          SetLanguage ''en'', Render, LanguageEffect]"]
  have "new_Set (map fst (defaultTranslations cfg0)) = [''common'']" by code_simp
  with m [THEN conjunct1]
  have 1: "loadedNamespaces (state (mount cfg0 True None)) = [''common'']" by (simp only:)
  from 1 m [THEN conjunct2, THEN conjunct2, THEN conjunct2] show ?thesis by (rule conjI)
qed

subsection \<open>The value of \<open>t\<close>\<close>

lemma lookup_path_undefined: "lookup_path JUndefined ks = JUndefined"
  by (cases ks) simp_all

lemma walk_lookup_path:
  "lookup_path v ks =
     (case walk v ks of Inr (Some x) \<Rightarrow> x | _ \<Rightarrow> JUndefined)"
  by (induction v ks rule: walk.induct)
     (auto simp: lookup_path_undefined split: sum.splits option.splits)

lemma t_value:
  "fst (t cfg key namespace_arg w) =
     (case resolves (working_tree cfg (rendered w)
                      (case namespace_arg of None \<Rightarrow> ''common'' | Some n \<Rightarrow> n))
             (split_dot key) of
        Some s \<Rightarrow> s | None \<Rightarrow> key)"
  by (auto simp: t_def Let_def resolves_def walk_lookup_path
      split: sum.splits option.splits jsval.splits)

lemma resolves_undefined: "resolves JUndefined ks = None"
  by (simp add: resolves_def lookup_path_undefined)



text \<open>
  The scenario of the specification: a key that is there, and one that is not. A key
  that goes on beyond a string leaf reads a property of the string: its length is a
  number, so the key is returned, but an index yields a character, which is a string.
\<close>

lemma t_scenario:
  "fst (t cfg0 ''nav.back'' (Some ''common'') (mount cfg0 True None)) = ''Back''
   \<and> fst (t cfg0 ''nav.missing'' None (mount cfg0 True None)) = ''nav.missing''
   \<and> fst (t cfg0 ''nav.back.length'' None (mount cfg0 True None)) = ''nav.back.length''
   \<and> fst (t cfg0 ''nav.back.0'' None (mount cfg0 True None)) = ''B''"
  by code_simp

subsection \<open>The URL of a fetch\<close>

text \<open>
  C5, as stated, fails: the code tests the manifest entry for truth, not for presence,
  so an entry that is the empty string counts as absent.
\<close>

theorem request_url_empty_entry:
  "map_of (translationManifest cfg_empty_entry) ''es/common'' = Some []
   \<and> request_url cfg_empty_entry ''es'' ''common'' = ''/locales/es/common.json''
   \<and> request_url cfg_empty_entry ''es'' ''common'' \<noteq> localesHashedPath cfg_empty_entry @ ''/'' @ []"
  by (simp add: cfg_empty_entry_def cfg0_def request_url_def)

text \<open>
  C5, amended. With a non-empty manifest entry for \<open>language/namespace\<close> the URL is
  \<open>localesHashedPath/entry\<close>; with no entry, or an empty one, it is
  \<open>localesPath/language/namespace.json\<close>. This is the URL passed to \<open>fetch\<close>, for the first
  namespace of a batch and for every later one.
\<close>

theorem request_url_manifest:
  "(map_of (translationManifest cfg) (lang @ ''/'' @ ns) = Some f \<and> f \<noteq> [] \<longrightarrow>
      request_url cfg lang ns = localesHashedPath cfg @ ''/'' @ f)
   \<and> (map_of (translationManifest cfg) (lang @ ''/'' @ ns) = None
        \<or> map_of (translationManifest cfg) (lang @ ''/'' @ ns) = Some [] \<longrightarrow>
      request_url cfg lang ns = localesPath cfg @ ''/'' @ lang @ ''/'' @ ns @ ''.json'')
   \<and> (language (rendered w) \<noteq> defaultLanguage cfg \<longrightarrow>
      fetched (loadTranslationsForNamespaces cfg (ns # rest) w)
        = fetched w @ [request_url cfg (language (rendered w)) ns])
   \<and> (i < length (inflight w) \<and> b_rest (inflight w ! i) = ns # rest \<longrightarrow>
      fetched (settle cfg i outcome w)
        = fetched w @ [request_url cfg (b_language (inflight w ! i)) ns])"
  by (auto simp: request_url_def Let_def loadTranslationsForNamespaces_def settle_def
      split: prod.splits)

theorem request_url_manifest_witness:
  "request_url cfg0 ''es'' ''common'' = ''/locales-hashed/es/common.ab12cd34.json''
   \<and> request_url cfg0 ''es'' ''dashboard'' = ''/locales/es/dashboard.json''
   \<and> request_url cfg_empty_entry ''es'' ''common'' = ''/locales/es/common.json''"
proof -
  have a: "map_of (translationManifest cfg0) (''es'' @ ''/'' @ ''common'') = Some ''es/common.ab12cd34.json''"
    by (simp add: cfg0_def)
  have b: "map_of (translationManifest cfg0) (''es'' @ ''/'' @ ''dashboard'') = None"
    by (simp add: cfg0_def)
  have c: "map_of (translationManifest cfg_empty_entry) (''es'' @ ''/'' @ ''common'') = Some []"
    by (simp add: cfg0_def cfg_empty_entry_def)
  have p: "localesHashedPath cfg0 = ''/locales-hashed''" "localesPath cfg0 = ''/locales''"
    "localesPath cfg_empty_entry = ''/locales''"
    by (simp_all add: cfg0_def cfg_empty_entry_def)
  have 1: "request_url cfg0 ''es'' ''common'' = ''/locales-hashed/es/common.ab12cd34.json''"
    using request_url_manifest [of cfg0 "''es''" "''common''" "''es/common.ab12cd34.json''"] a p
    by simp
  have 2: "request_url cfg0 ''es'' ''dashboard'' = ''/locales/es/dashboard.json''"
    using request_url_manifest [of cfg0 "''es''" "''dashboard''"] b p by simp
  have 3: "request_url cfg_empty_entry ''es'' ''common'' = ''/locales/es/common.json''"
    using request_url_manifest [of cfg_empty_entry "''es''" "''common''"] c p by simp
  from 1 2 3 show ?thesis by simp
qed

subsection \<open>The default language\<close>

lemma load_default:
  "language (rendered w) = defaultLanguage cfg \<Longrightarrow> loadTranslationsForNamespaces cfg nss w = w"
  by (simp add: loadTranslationsForNamespaces_def)

lemma t_effects_default:
  "language (rendered w) = defaultLanguage cfg \<Longrightarrow>
   fetched (snd (t cfg key nsa w)) = fetched w \<and> inflight (snd (t cfg key nsa w)) = inflight w"
  by (auto simp: t_def Let_def split: sum.splits option.splits jsval.splits)

lemma loadNamespaces_default:
  "language (rendered w) = defaultLanguage cfg \<Longrightarrow>
   fetched (loadNamespaces cfg nss w) = fetched w \<and> inflight (loadNamespaces cfg nss w) = inflight w"
  by (simp add: loadNamespaces_def Let_def load_default)

lemma working_tree_default:
  "translations_state r = defaultTranslations cfg \<Longrightarrow>
   working_tree cfg r ns = own (defaultTranslations cfg) ns"
  by (simp add: working_tree_def Let_def)

text \<open>
  C4, as stated, fails: a response for Spanish that arrives after the switch back to
  English is merged into the translations, and \<open>t\<close> then returns the Spanish string
  while the language is the default one.
\<close>

theorem default_language_stale_response:
  "let w = run cfg0 [SetLanguage ''es'', Render, LanguageEffect, SetLanguage ''en'', Render,
                     LanguageEffect, FetchSettled 0 (Response True (Json es_common)), Render]
             (mount cfg0 True None)
   in language (rendered w) = defaultLanguage cfg0 \<and> inflight w = []
    \<and> fst (t cfg0 ''nav.back'' (Some ''common'') w) = ''Volver''
    \<and> fst (t cfg0 ''nav.back'' (Some ''common'') (mount cfg0 True None)) = ''Back''"
  by code_simp

text \<open>
  C4, amended. When the language of the render is the default language, no call of
  \<open>t\<close> or of \<open>loadNamespaces\<close> fetches anything, and neither does the language effect,
  which sets the translations to \<open>defaultTranslations\<close>, as they are at the mount. While
  the translations are \<open>defaultTranslations\<close>, the value of \<open>t\<close> is the string the key
  resolves to in \<open>defaultTranslations\<close>, or the key.
\<close>

theorem default_language_shortcut:
  assumes "language (rendered w) = defaultLanguage cfg"
  shows "fetched (snd (t cfg key namespace_arg w)) = fetched w
       \<and> inflight (snd (t cfg key namespace_arg w)) = inflight w
       \<and> fetched (loadNamespaces cfg nss w) = fetched w
       \<and> inflight (loadNamespaces cfg nss w) = inflight w
       \<and> fetched (language_effect cfg w) = fetched w
       \<and> translations_state (state (language_effect cfg w)) = defaultTranslations cfg
       \<and> translations_state (state (mount cfg has_window saved)) = defaultTranslations cfg
       \<and> (translations_state (rendered w) = defaultTranslations cfg \<longrightarrow>
            fst (t cfg key (Some ns) w) =
              (case resolves (own (defaultTranslations cfg) ns) (split_dot key) of
                 Some s \<Rightarrow> s | None \<Rightarrow> key))"
  using assms t_effects_default [OF assms] loadNamespaces_default [OF assms]
  by (simp add: language_effect_def mount_def Let_def t_value working_tree_default)

theorem default_language_shortcut_witness:
  "language (rendered (mount cfg0 True None)) = defaultLanguage cfg0
   \<and> fetched (snd (t cfg0 ''title'' (Some ''dashboard'') (mount cfg0 True None))) = []
   \<and> fetched (loadNamespaces cfg0 [''dashboard''] (mount cfg0 True None)) = []
   \<and> fst (t cfg0 ''nav.back'' (Some ''common'') (mount cfg0 True None)) = ''Back''"
proof -
  have a: "language (rendered (mount cfg0 True None)) = defaultLanguage cfg0" by code_simp
  have b: "translations_state (rendered (mount cfg0 True None)) = defaultTranslations cfg0"
    by (simp add: mount_def Let_def)
  have f: "fetched (mount cfg0 True None) = []" by (simp add: mount_def Let_def)
  have r: "resolves (own (defaultTranslations cfg0) ''common'') (split_dot ''nav.back'') = Some ''Back''"
    by code_simp
  have 1: "fetched (snd (t cfg0 ''title'' (Some ''dashboard'') (mount cfg0 True None))) = []"
    using default_language_shortcut [OF a, of "''title''" "Some ''dashboard''"] f by simp
  have 2: "fetched (loadNamespaces cfg0 [''dashboard''] (mount cfg0 True None)) = []"
    using default_language_shortcut [OF a, of _ _ "[''dashboard'']"] f by simp
  have 3: "fst (t cfg0 ''nav.back'' (Some ''common'') (mount cfg0 True None)) = ''Back''"
    using default_language_shortcut [OF a, of "''nav.back''" _ _ _ _ "''common''"] b r by simp
  from a 1 2 3 show ?thesis by simp
qed

subsection \<open>Requesting a namespace again\<close>

lemma loadNamespaces_known:
  "A \<in> set (loadedNamespaces (rendered w)) \<Longrightarrow> loadNamespaces cfg [A] w = w"
  by (simp add: loadNamespaces_def)

lemma t_known:
  "A \<in> set (loadedNamespaces (rendered w)) \<Longrightarrow>
   fetched (snd (t cfg key (Some A) w)) = fetched w
   \<and> inflight (snd (t cfg key (Some A) w)) = inflight w
   \<and> state (snd (t cfg key (Some A) w)) = state w"
  by (auto simp: t_def Let_def split: sum.splits option.splits jsval.splits)

lemma loadNamespaces_batch:
  "inflight (loadNamespaces cfg nss w) = inflight w
   \<or> (\<exists>b. inflight (loadNamespaces cfg nss w) = inflight w @ [b]
         \<and> b_namespace b # b_rest b = filter (\<lambda>ns. ns \<notin> set (loadedNamespaces (rendered w))) nss)"
  by (auto simp: loadNamespaces_def Let_def loadTranslationsForNamespaces_def finish_batch_def
      split: list.splits)

lemma step_rendered:
  "rendered (step cfg e w) = (if e = Render then state w else rendered w)"
  by (cases e)
     (auto simp: render_def setLanguage_def storage_effect_def language_effect_def
       load_fields settle_fields t_def loadNamespaces_def Let_def
       split: sum.splits option.splits jsval.splits)

lemma step_known: "known A w \<Longrightarrow> known A (step cfg e w)"
  using step_loaded [of w cfg e] by (auto simp: known_def step_rendered)

lemma run_known: "known A w \<Longrightarrow> known A (run cfg es w)"
proof (induction es arbitrary: w)
  case Nil
  then show ?case by (simp add: run_def)
next
  case (Cons e es)
  have "run cfg (e # es) w = run cfg es (step cfg e w)" by (simp add: run_def)
  with Cons.IH [OF step_known [OF Cons.prems]] show ?case by simp
qed

lemma coherent_mount: "coherent (mount cfg hw saved)"
  by (simp add: coherent_def mount_def Let_def)

lemma step_coherent: "coherent w \<Longrightarrow> coherent (step cfg e w)"
  using step_loaded [of w cfg e] by (auto simp: coherent_def step_rendered)

lemma run_coherent: "coherent w \<Longrightarrow> coherent (run cfg es w)"
proof (induction es arbitrary: w)
  case Nil
  then show ?case by (simp add: run_def)
next
  case (Cons e es)
  have "run cfg (e # es) w = run cfg es (step cfg e w)" by (simp add: run_def)
  with Cons.IH [OF step_coherent [OF Cons.prems]] show ?case by simp
qed

lemma loadNamespaces_render_known:
  "coherent w \<Longrightarrow> A \<in> set nss \<Longrightarrow> known A (render (loadNamespaces cfg nss w))"
  by (auto simp: known_def coherent_def render_def loadNamespaces_def Let_def load_fields
      set_new_Set filter_empty_conv)

lemma t_render_known:
  "coherent w \<Longrightarrow> known A (render (snd (t cfg key (Some A) w)))"
  by (auto simp: known_def coherent_def render_def t_def Let_def load_fields set_new_Set
      split: sum.splits option.splits jsval.splits)

lemma loadNamespaces_twice:
  assumes "coherent w"
  shows "fetched (run cfg [CallLoadNamespaces [A], Render, CallLoadNamespaces [A]] w) = fetched w
       \<or> fetched (run cfg [CallLoadNamespaces [A], Render, CallLoadNamespaces [A]] w)
          = fetched w @ [request_url cfg (language (rendered w)) A]"
proof -
  have k: "known A (render (loadNamespaces cfg [A] w))"
    using loadNamespaces_render_known [OF assms, of A "[A]" cfg] by simp
  then have "loadNamespaces cfg [A] (render (loadNamespaces cfg [A] w)) = render (loadNamespaces cfg [A] w)"
    by (simp add: known_def loadNamespaces_known)
  then have "fetched (run cfg [CallLoadNamespaces [A], Render, CallLoadNamespaces [A]] w)
      = fetched (loadNamespaces cfg [A] w)"
    by (simp add: run_def render_def)
  then show ?thesis
    by (auto simp: loadNamespaces_def Let_def loadTranslationsForNamespaces_def)
qed

text \<open>
  C1, as stated, fails: \<open>loadNamespaces\<close> tests the set of its render, which a call does
  not change. Two components that mount together and both ask for the namespace
  \<open>dashboard\<close> call the same \<open>loadNamespaces\<close> one after the other, and each call fetches.
\<close>

theorem loadNamespaces_twice_in_one_render:
  "fetched (run cfg0 [CallLoadNamespaces [''dashboard''], CallLoadNamespaces [''dashboard'']]
             (mount cfg0 True (Some ''es'')))
   = [''/locales/es/dashboard.json'', ''/locales/es/dashboard.json'']"
  by code_simp

text \<open>
  C1, amended. From a mounted provider, after any events: once a call of \<open>loadNamespaces\<close>
  or of \<open>t\<close> has named the namespace \<open>A\<close> and the provider has rendered, then, whatever
  happens next, \<open>loadNamespaces([A])\<close> does nothing, \<open>t(key, A)\<close> fetches nothing, and a
  batch started by \<open>loadNamespaces\<close> does not hold \<open>A\<close>. Two calls of \<open>loadNamespaces([A])\<close>
  with a render in between fetch at most once.
\<close>

theorem requested_once:
  assumes "w0 = run cfg es0 (mount cfg has_window saved)"
    and "(e = CallLoadNamespaces nss \<and> A \<in> set nss) \<or> e = CallT key (Some A)"
    and "w = run cfg es (render (step cfg e w0))"
  shows "loadNamespaces cfg [A] w = w
       \<and> fetched (snd (t cfg key' (Some A) w)) = fetched w
       \<and> inflight (snd (t cfg key' (Some A) w)) = inflight w
       \<and> (inflight (loadNamespaces cfg nss' w) = inflight w
          \<or> (\<exists>b. inflight (loadNamespaces cfg nss' w) = inflight w @ [b]
                \<and> A \<notin> set (b_namespace b # b_rest b)))
       \<and> (fetched (run cfg [CallLoadNamespaces [A], Render, CallLoadNamespaces [A]] w0) = fetched w0
          \<or> fetched (run cfg [CallLoadNamespaces [A], Render, CallLoadNamespaces [A]] w0)
             = fetched w0 @ [request_url cfg (language (rendered w0)) A])"
proof -
  have c0: "coherent w0"
    using assms(1) run_coherent [OF coherent_mount] by simp
  have "known A (render (step cfg e w0))"
    using assms(2) loadNamespaces_render_known [OF c0] t_render_known [OF c0] by auto
  then have k: "known A w"
    using assms(3) run_known by simp
  then have r: "A \<in> set (loadedNamespaces (rendered w))" by (simp add: known_def)
  have b: "inflight (loadNamespaces cfg nss' w) = inflight w
          \<or> (\<exists>b. inflight (loadNamespaces cfg nss' w) = inflight w @ [b]
                \<and> A \<notin> set (b_namespace b # b_rest b))"
  proof -
    from loadNamespaces_batch [of cfg nss' w]
    consider "inflight (loadNamespaces cfg nss' w) = inflight w"
      | b where "inflight (loadNamespaces cfg nss' w) = inflight w @ [b]"
          "b_namespace b # b_rest b = filter (\<lambda>ns. ns \<notin> set (loadedNamespaces (rendered w))) nss'"
      by blast
    then show ?thesis
    proof cases
      case 1
      then show ?thesis by simp
    next
      case 2
      have "A \<notin> set (filter (\<lambda>ns. ns \<notin> set (loadedNamespaces (rendered w))) nss')"
        using r by simp
      with 2 show ?thesis by metis
    qed
  qed
  show ?thesis
    using loadNamespaces_known [OF r] t_known [OF r] b loadNamespaces_twice [OF c0]
    by simp
qed

theorem requested_once_witness:
  "(let w = run cfg0 [CallT ''title'' (Some ''dashboard'')]
              (render (step cfg0 (CallLoadNamespaces [''dashboard''])
                 (run cfg0 [SetLanguage ''es'', Render] (mount cfg0 True None))))
    in loadNamespaces cfg0 [''dashboard''] w = w
     \<and> fetched (snd (t cfg0 ''title'' (Some ''dashboard'') w)) = fetched w)
   \<and> fetched (run cfg0 [SetLanguage ''es'', Render, CallLoadNamespaces [''dashboard''], Render,
                         CallT ''title'' (Some ''dashboard''), CallLoadNamespaces [''dashboard'']]
               (mount cfg0 True None))
      = [''/locales/es/dashboard.json'']"
proof -
  have f: "fetched (run cfg0 [SetLanguage ''es'', Render, CallLoadNamespaces [''dashboard''], Render,
                         CallT ''title'' (Some ''dashboard''), CallLoadNamespaces [''dashboard'']]
               (mount cfg0 True None))
      = [''/locales/es/dashboard.json'']"
    by code_simp
  show ?thesis
    using requested_once [OF refl _ refl, of "CallLoadNamespaces [''dashboard'']" "[''dashboard'']"
        "''dashboard''" "''title''" cfg0 "[CallT ''title'' (Some ''dashboard'')]"
        "[SetLanguage ''es'', Render]" True None "''title''"] f
    by (simp add: Let_def)
qed

subsection \<open>\<open>isLoading\<close> and the batches\<close>

lemma single_mount: "single (mount cfg hw saved)"
  by (simp add: single_def mount_def Let_def)

lemma load_single:
  "inflight w = [] \<Longrightarrow> single w \<Longrightarrow> single (loadTranslationsForNamespaces cfg nss w)"
  by (auto simp: single_def loadTranslationsForNamespaces_def Let_def finish_batch_def
      split: list.splits)

lemma settle_single: "single w \<Longrightarrow> single (settle cfg i outcome w)"
proof (cases "i < length (inflight w)")
  case False
  assume "single w"
  with False show ?thesis by (simp add: settle_def)
next
  case True
  assume s: "single w"
  with True obtain b where b: "inflight w = [b]" "i = 0"
    by (cases "inflight w") (auto simp: single_def)
  show ?thesis
    using s b
    by (cases "b_rest b")
       (auto simp: single_def settle_def Let_def finish_batch_def split: prod.splits)
qed

lemma step_single:
  assumes "single w" "inflight w = [] \<or> \<not> starts_batch cfg e w"
  shows "single (step cfg e w)"
proof (cases "quiet e")
  case True
  then show ?thesis
    using assms(1) settle_single [OF assms(1)]
    by (cases e) (auto simp: single_def render_def setLanguage_def storage_effect_def)
next
  case False
  show ?thesis
  proof (cases "inflight w = []")
    case e: True
    have upd: "single (w\<lparr>state := (state w)\<lparr>loadedNamespaces := l\<rparr>\<rparr>)"
      "inflight (w\<lparr>state := (state w)\<lparr>loadedNamespaces := l\<rparr>\<rparr>) = []" for l
      using assms(1) e by (simp_all add: single_def)
    have con: "single (w'\<lparr>console := c\<rparr>)" if "single w'" for w' c
      using that by (simp add: single_def)
    show ?thesis
    proof (cases e)
      case (CallT key ns)
      have "single (snd (t cfg key ns w))"
        using assms(1) load_single [OF upd(2) upd(1)] upd(1)
        by (auto simp: t_def Let_def con split: sum.splits option.splits jsval.splits)
      with CallT show ?thesis by simp
    next
      case (CallLoadNamespaces nss)
      then show ?thesis
        using assms(1) load_single [OF upd(2) upd(1)]
        by (simp add: loadNamespaces_def Let_def)
    next
      case LanguageEffect
      then show ?thesis
        using assms(1) load_single [OF e assms(1)]
        by (auto simp: language_effect_def single_def)
    qed (use False in simp_all)
  next
    case ne: False
    with assms(2) False have "inflight (step cfg e w) = inflight w"
      "isLoading (state (step cfg e w)) = isLoading (state w)"
      by (auto simp: starts_batch_def)
    with assms(1) show ?thesis by (simp add: single_def)
  qed
qed

lemma run_single:
  "single w \<Longrightarrow> one_at_a_time cfg es w \<Longrightarrow> single (run cfg es w)"
proof (induction es arbitrary: w)
  case Nil
  then show ?case by (simp add: run_def)
next
  case (Cons e es)
  have r: "run cfg (e # es) w = run cfg es (step cfg e w)" by (simp add: run_def)
  from Cons.prems have "single (step cfg e w)" "one_at_a_time cfg es (step cfg e w)"
    using step_single [where w = w and e = e and cfg = cfg] by auto
  from Cons.IH [OF this] r show ?case by simp
qed

lemma await_all_batch:
  assumes "i < length (inflight w)" "inflight w ! i = b" "b_rest b = rest"
  shows "await_all cfg net i (Suc (length rest)) w =
     finish_batch
       (fst (responses cfg net (b_language b) (b_namespace b # rest) (b_newTranslations b, console w)))
       (w\<lparr>inflight := take i (inflight w) @ drop (Suc i) (inflight w),
          fetched := fetched w @ map (request_url cfg (b_language b)) rest,
          console := snd (responses cfg net (b_language b) (b_namespace b # rest)
                            (b_newTranslations b, console w))\<rparr>)"
  using assms
proof (induction rest arbitrary: w b)
  case Nil
  then show ?case
    by (simp add: settle_def Let_def responses_def split: prod.splits)
next
  case (Cons n rest)
  define outcome where "outcome = net (request_url cfg (b_language b) (b_namespace b))"
  define acc where "acc = receive cfg (b_namespace b) outcome (b_newTranslations b, console w)"
  define b' where "b' = b\<lparr>b_namespace := n, b_rest := rest, b_newTranslations := fst acc\<rparr>"
  define w' where "w' = w\<lparr>inflight := (inflight w)[i := b'],
                          fetched := fetched w @ [request_url cfg (b_language b) n],
                          console := snd acc\<rparr>"
  have s: "settle cfg i outcome w = w'"
    using Cons.prems
    by (simp add: settle_def Let_def w'_def b'_def acc_def split: prod.splits)
  have p: "i < length (inflight w')" "inflight w' ! i = b'" "b_rest b' = rest"
    using Cons.prems by (simp_all add: w'_def b'_def)
  have "await_all cfg net i (Suc (length (n # rest))) w = await_all cfg net i (Suc (length rest)) w'"
    using Cons.prems s by (simp add: outcome_def Let_def)
  also note Cons.IH [OF p]
  finally show ?case
    by (simp add: w'_def b'_def acc_def outcome_def responses_def)
qed

lemma load_to_end_eq:
  assumes "language (rendered w) \<noteq> defaultLanguage cfg"
  shows "load_to_end cfg net nss w =
     finish_batch (fst (responses cfg net (language (rendered w)) nss ([], console w)))
       (w\<lparr>fetched := fetched w @ map (request_url cfg (language (rendered w))) nss,
          console := snd (responses cfg net (language (rendered w)) nss ([], console w))\<rparr>)"
proof (cases nss)
  case Nil
  then show ?thesis
    using assms
    by (simp add: load_to_end_def loadTranslationsForNamespaces_def responses_def finish_batch_def)
next
  case (Cons ns rest)
  define b where "b = \<lparr>b_language = language (rendered w), b_namespace = ns, b_rest = rest,
                       b_newTranslations = []\<rparr>"
  define w1 where "w1 = w\<lparr>state := (state w)\<lparr>isLoading := True\<rparr>,
                          fetched := fetched w @ [request_url cfg (language (rendered w)) ns],
                          inflight := inflight w @ [b]\<rparr>"
  have l: "loadTranslationsForNamespaces cfg nss w = w1"
    using assms Cons by (simp add: loadTranslationsForNamespaces_def w1_def b_def Let_def)
  have p: "length (inflight w) < length (inflight w1)" "inflight w1 ! length (inflight w) = b"
    "b_rest b = rest"
    by (simp_all add: w1_def b_def)
  have "load_to_end cfg net nss w = await_all cfg net (length (inflight w)) (Suc (length rest)) w1"
    unfolding load_to_end_def l by (simp only: Cons length_Cons)
  also note await_all_batch [OF p, of cfg net]
  finally show ?thesis
    by (simp add: w1_def b_def finish_batch_def Cons)
qed

lemma receive_sets: "map_of (fst (receive cfg n outcome acc)) n \<noteq> None"
  by (cases outcome; cases acc)
     (auto simp: receive_def update_conv' split: body.splits)


lemma receive_other:
  "m \<noteq> n \<Longrightarrow> map_of (fst (receive cfg n outcome acc)) m = map_of (fst acc) m"
  by (cases outcome; cases acc)
     (auto simp: receive_def update_conv' split: body.splits)

lemma receive_distinct:
  "distinct (map fst (fst acc)) \<Longrightarrow> distinct (map fst (fst (receive cfg n outcome acc)))"
  by (cases outcome; cases acc)
     (auto simp: receive_def distinct_update split: body.splits)

lemma receive_console:
  "set (snd acc) \<subseteq> set (snd (receive cfg n outcome acc))"
  by (cases outcome; cases acc) (auto simp: receive_def split: body.splits)


lemma receive_quiet:
  "\<not> thrown outcome \<Longrightarrow> snd (receive cfg n outcome acc) = snd acc"
  by (cases outcome; cases acc) (auto simp: receive_def thrown_def split: body.splits)

lemma responses_snoc:
  "responses cfg net lang (nss @ [n]) acc
     = receive cfg n (net (request_url cfg lang n)) (responses cfg net lang nss acc)"
  by (simp add: responses_def)


lemma responses_distinct:
  "distinct (map fst (fst acc)) \<Longrightarrow> distinct (map fst (fst (responses cfg net lang nss acc)))"
  by (induction nss rule: rev_induct) (simp_all add: responses_def receive_distinct)

lemma responses_console:
  "set (snd acc) \<subseteq> set (snd (responses cfg net lang nss acc))"
proof (induction nss rule: rev_induct)
  case Nil
  then show ?case by (simp add: responses_def)
next
  case (snoc n nss)
  then show ?case
    using receive_console [of "responses cfg net lang nss acc" cfg n]
    by (auto simp: responses_snoc)
qed


lemma map_of_spread:
  "distinct (map fst new) \<Longrightarrow> map_of (spread prev new) = map_of prev ++ map_of new"
proof (induction new arbitrary: prev)
  case Nil
  then show ?case by (simp add: spread_def)
next
  case (Cons kv new)
  obtain k v where kv: "kv = (k, v)" by (cases kv)
  have s: "spread prev (kv # new) = spread (AList.update k v prev) new"
    by (simp add: spread_def kv)
  have d: "distinct (map fst new)" "k \<notin> fst ` set new" using Cons.prems kv by auto
  then have n: "map_of new k = None" by (simp add: map_of_eq_None_iff)
  show ?case
    unfolding s Cons.IH [OF d(1)]
    using n by (auto simp: kv update_conv' map_add_def fun_eq_iff split: option.splits)
qed


lemma responses_dom: "set nss \<subseteq> dom (map_of (fst (responses cfg net lang nss acc)))"
proof (induction nss rule: rev_induct)
  case Nil
  then show ?case by simp
next
  case (snoc n nss)
  show ?case
  proof
    fix m assume m: "m \<in> set (nss @ [n])"
    show "m \<in> dom (map_of (fst (responses cfg net lang (nss @ [n]) acc)))"
    proof (cases "m = n")
      case True
      then show ?thesis by (simp add: responses_snoc receive_sets domIff)
    next
      case False
      with m snoc have "m \<in> dom (map_of (fst (responses cfg net lang nss acc)))" by auto
      with False show ?thesis by (auto simp: responses_snoc receive_other)
    qed
  qed
qed

text \<open>
  C6, as stated, fails: \<open>isLoading\<close> is one flag for all batches. With two batches
  outstanding, the first to finish sets it to false while the other still awaits its
  response.
\<close>

theorem isLoading_false_while_outstanding:
  "let w = run cfg0 [CallLoadNamespaces [''dashboard''], LanguageEffect,
                     FetchSettled 0 (Response False NotJson)]
             (mount cfg0 True (Some ''es''))
   in isLoading (state w) = False \<and> map b_namespace (inflight w) = [''common'']"
  by code_simp

text \<open>
  C6, amended. As long as a batch is started only when none is outstanding,
  \<open>isLoading\<close> is true exactly while a batch is outstanding. Whatever the outcome of a
  \<open>fetch\<close>, the batch goes on with its next namespace and \<open>isLoading\<close> stays as it is; a
  batch run to its end has fetched every one of its namespaces, each has an entry in
  the translations, and only then is \<open>isLoading\<close> false.
\<close>

theorem isLoading_one_batch:
  "(one_at_a_time cfg es (mount cfg has_window saved) \<longrightarrow>
      (isLoading (state (run cfg es (mount cfg has_window saved)))
        \<longleftrightarrow> inflight (run cfg es (mount cfg has_window saved)) \<noteq> []))
   \<and> (i < length (inflight w) \<and> b_rest (inflight w ! i) = ns # rest \<longrightarrow>
        length (inflight (settle cfg i outcome w)) = length (inflight w)
      \<and> b_namespace (inflight (settle cfg i outcome w) ! i) = ns
      \<and> b_rest (inflight (settle cfg i outcome w) ! i) = rest
      \<and> fetched (settle cfg i outcome w)
          = fetched w @ [request_url cfg (b_language (inflight w ! i)) ns]
      \<and> isLoading (state (settle cfg i outcome w)) = isLoading (state w))
   \<and> (language (rendered w) \<noteq> defaultLanguage cfg \<longrightarrow>
        fetched (load_to_end cfg net nss w)
          = fetched w @ map (request_url cfg (language (rendered w))) nss
      \<and> set nss \<subseteq> dom (map_of (translations_state (state (load_to_end cfg net nss w))))
      \<and> inflight (load_to_end cfg net nss w) = inflight w
      \<and> \<not> isLoading (state (load_to_end cfg net nss w)))"
proof -
  have 1: "isLoading (state (run cfg es (mount cfg has_window saved)))
        \<longleftrightarrow> inflight (run cfg es (mount cfg has_window saved)) \<noteq> []"
    if "one_at_a_time cfg es (mount cfg has_window saved)"
    using run_single [OF single_mount that] by (simp add: single_def)
  have 2: "length (inflight (settle cfg i outcome w)) = length (inflight w)
      \<and> b_namespace (inflight (settle cfg i outcome w) ! i) = ns
      \<and> b_rest (inflight (settle cfg i outcome w) ! i) = rest
      \<and> fetched (settle cfg i outcome w)
          = fetched w @ [request_url cfg (b_language (inflight w ! i)) ns]
      \<and> isLoading (state (settle cfg i outcome w)) = isLoading (state w)"
    if "i < length (inflight w)" "b_rest (inflight w ! i) = ns # rest"
    using that by (simp add: settle_def Let_def split: prod.splits)
  have 3: "fetched (load_to_end cfg net nss w)
          = fetched w @ map (request_url cfg (language (rendered w))) nss
      \<and> set nss \<subseteq> dom (map_of (translations_state (state (load_to_end cfg net nss w))))
      \<and> inflight (load_to_end cfg net nss w) = inflight w
      \<and> \<not> isLoading (state (load_to_end cfg net nss w))"
    if l: "language (rendered w) \<noteq> defaultLanguage cfg"
  proof -
    let ?acc = "responses cfg net (language (rendered w)) nss ([], console w)"
    have d: "distinct (map fst (fst ?acc))" by (rule responses_distinct) simp
    have "set nss \<subseteq> dom (map_of (fst ?acc))" by (rule responses_dom)
    then have "set nss \<subseteq> dom (map_of (spread (translations_state (state w)) (fst ?acc)))"
      by (auto simp: map_of_spread [OF d])
    then show ?thesis
      by (simp add: load_to_end_eq [OF l] finish_batch_fields)
  qed
  from 1 2 3 show ?thesis by blast
qed

theorem isLoading_one_batch_witness:
  "one_at_a_time cfg0 [SetLanguage ''es'', Render, LanguageEffect,
                       CallT ''nav.back'' (Some ''common''), Render,
                       FetchSettled 0 (Response True (Json es_common)), Render,
                       CallT ''title'' (Some ''dashboard'')] (mount cfg0 True None)
   \<and> isLoading (state (run cfg0 [SetLanguage ''es'', Render, LanguageEffect,
                       CallT ''nav.back'' (Some ''common''), Render,
                       FetchSettled 0 (Response True (Json es_common)), Render,
                       CallT ''title'' (Some ''dashboard'')] (mount cfg0 True None)))
   \<and> inflight (run cfg0 [SetLanguage ''es'', Render, LanguageEffect,
                       CallT ''nav.back'' (Some ''common''), Render,
                       FetchSettled 0 (Response True (Json es_common)), Render,
                       CallT ''title'' (Some ''dashboard'')] (mount cfg0 True None)) \<noteq> []
   \<and> fetched (load_to_end cfg0 (\<lambda>url. NetworkError) [''dashboard'', ''common'']
                (mount cfg0 True (Some ''es'')))
      = [''/locales/es/dashboard.json'', ''/locales-hashed/es/common.ab12cd34.json'']"
proof -
  let ?es = "[SetLanguage ''es'', Render, LanguageEffect,
              CallT ''nav.back'' (Some ''common''), Render,
              FetchSettled 0 (Response True (Json es_common)), Render,
              CallT ''title'' (Some ''dashboard'')]"
  have h: "one_at_a_time cfg0 ?es (mount cfg0 True None)" by code_simp
  have n: "inflight (run cfg0 ?es (mount cfg0 True None)) \<noteq> []" by code_simp
  have l: "language (rendered (mount cfg0 True (Some ''es''))) \<noteq> defaultLanguage cfg0"
    by code_simp
  have u: "map (request_url cfg0 (language (rendered (mount cfg0 True (Some ''es'')))))
             [''dashboard'', ''common'']
           = [''/locales/es/dashboard.json'', ''/locales-hashed/es/common.ab12cd34.json'']"
    by code_simp
  have f: "fetched (mount cfg0 True (Some ''es'')) = []" by (simp add: mount_def Let_def)
  have a: "isLoading (state (run cfg0 ?es (mount cfg0 True None)))"
    using isLoading_one_batch [of cfg0 ?es True None] h n by blast
  have b: "fetched (load_to_end cfg0 (\<lambda>url. NetworkError) [''dashboard'', ''common'']
                (mount cfg0 True (Some ''es'')))
      = [''/locales/es/dashboard.json'', ''/locales-hashed/es/common.ab12cd34.json'']"
    using isLoading_one_batch [of cfg0 "[]" True "Some ''es''" 0 "mount cfg0 True (Some ''es'')"
        _ _ _ "\<lambda>url. NetworkError" "[''dashboard'', ''common'']"] l u f
    by simp
  from h n a b show ?thesis by simp
qed

subsection \<open>A fetch that fails\<close>




section \<open>Properties of the build scripts\<close>

subsection \<open>The hash\<close>

text \<open>The digest agrees with the test suite of RFC 1321 on the empty message and on \<open>abc\<close>.\<close>

lemma md5_test_suite:
  "hex (md5 []) = ''d41d8cd98f00b204e9800998ecf8427e''"
  "hex (md5 ''abc'') = ''900150983cd24fb0d6963f7d28e17f72''"
  by code_simp+












subsection \<open>The generators\<close>



























end
